theory Spec2Isabelle
  imports Main "HOL-Library.Word"
begin

section \<open>Values of the program\<close>

text \<open>
  The pool of \<^verbatim>\<open>simple_pool.go\<close> stores values of type \<^verbatim>\<open>any\<close>. Three kinds of values
  occur: the nil interface, a value made by the user's factory (opaque, identified by a
  number), and a pointer to an \<^verbatim>\<open>idleConn\<close> struct, which the pool itself allocates.
  An \<^verbatim>\<open>idleConn\<close> is never mutated after its allocation, so the pointer is modelled by
  the struct it points to.

  \<^verbatim>\<open>time.Time\<close> is a number of nanoseconds and \<^verbatim>\<open>time.Duration\<close> is an int64 count
  of nanoseconds; \<^verbatim>\<open>int32\<close> is a 32-bit word read as two's complement.
\<close>

type_synonym int32 = "32 word"
type_synonym Duration = int
type_synonym Time = int

datatype error =
    PoolClosed
  | GetConnectionTimeout
  | ConnectionIsNull
  | InvalidCapSet
  | InvalidFactorySet
  | InvalidCloseSet
  | InitPoolErr
  | External nat  \<comment> \<open>an error value made by the user's factory or close function\<close>

datatype any = nil | Res nat | IdleConnPtr idleConn
and idleConn = IdleConn (connection: any) (lastActiveTime: Time)

record connReq =
  abandon :: bool
  idleConn :: nat  \<comment> \<open>\<^verbatim>\<open>chan any\<close>, unbuffered: the identity of the channel\<close>

text \<open>
  \<^verbatim>\<open>t.Sub(u)\<close> of package time: the difference, saturated to the range of int64.
\<close>

definition maxDuration :: Duration where
  "maxDuration = 2 ^ 63 - 1"

definition minDuration :: Duration where
  "minDuration = - (2 ^ 63)"

definition Sub :: "Time \<Rightarrow> Time \<Rightarrow> Duration" where
  "Sub t u =
     (let d = t - u
      in if d > maxDuration then maxDuration else if d < minDuration then minDuration else d)"

section \<open>The world outside the pool\<close>

text \<open>
  The factory and the close function are the caller's code. Their calls are recorded:
  \<open>factoryCalls\<close> counts the calls of the factory, \<open>closeCalls\<close> lists the arguments of
  the calls of the close function, oldest first. What they return may depend on that
  history.

  A \<^verbatim>\<open>Get\<close> that has put its request on the request queue waits in its inner
  \<^verbatim>\<open>select\<close>; \<open>parked\<close> holds the handoff channels on which such a goroutine waits.
  \<open>resumed\<close> lists, for the goroutines that left that \<^verbatim>\<open>select\<close>, the handoff channel and
  the two values their \<^verbatim>\<open>Get\<close> returned. \<open>nextChan\<close> numbers the channels made by
  \<^verbatim>\<open>make(chan any)\<close>.

  A \<^verbatim>\<open>Get\<close> that was blocked in the send of its request and has been released by a
  receive is on its way to the inner \<^verbatim>\<open>select\<close>, and is not waiting there yet:
  \<open>entering\<close> holds the handoff channels of these goroutines. Its ticker was started
  before the send and may have fired in the meantime. When such a goroutine reaches the
  \<^verbatim>\<open>select\<close> while a \<^verbatim>\<open>Put\<close> is sending on its handoff channel, the \<^verbatim>\<open>select\<close> takes the
  ticker or the connection; \<open>tickerFirst\<close> tells for each handoff channel which of the
  two happens. It stands for what the clock and the scheduler decide.
\<close>

record world =
  factoryCalls :: nat
  closeCalls :: "any list"
  nextChan :: nat
  parked :: "nat set"
  resumed :: "(nat \<times> any \<times> error option) list"
  entering :: "nat set"
  tickerFirst :: "nat \<Rightarrow> bool"

type_synonym factory_fn = "world \<Rightarrow> any \<times> error option"
type_synonym close_fn = "world \<Rightarrow> any \<Rightarrow> error option"

definition call_factory :: "factory_fn \<Rightarrow> world \<Rightarrow> (any \<times> error option) \<times> world" where
  "call_factory f w = (f w, w\<lparr>factoryCalls := Suc (factoryCalls w)\<rparr>)"

definition call_close :: "close_fn \<Rightarrow> any \<Rightarrow> world \<Rightarrow> error option \<times> world" where
  "call_close g x w = (g w x, w\<lparr>closeCalls := closeCalls w @ [x]\<rparr>)"

section \<open>Channels\<close>

text \<open>
  A Go channel: the buffer, its capacity, the values of the goroutines blocked in a send
  (in the order they arrived) and whether the channel was closed. No goroutine is ever
  blocked in a receive on the two queues of the pool, since \<^verbatim>\<open>Get\<close> and \<^verbatim>\<open>Put\<close> receive
  from them in a \<^verbatim>\<open>select\<close> with a \<^verbatim>\<open>default\<close> branch only.
\<close>

record 'a chan =
  buf :: "'a list"
  cap :: nat
  sendq :: "'a list"
  isClosed :: bool

definition make_chan :: "nat \<Rightarrow> 'a chan" where
  "make_chan n = \<lparr>buf = [], cap = n, sendq = [], isClosed = False\<rparr>"

datatype 'a recv = Value 'a | ClosedEmpty | NotReady

text \<open>
  A receive that does not block. A buffered value is taken first, and then the first
  blocked sender moves its value into the buffer and goes on; with an empty buffer the
  value is taken from the first blocked sender itself. The third component lists the
  sender that was released.
\<close>

definition chanrecv :: "'a chan \<Rightarrow> 'a recv \<times> 'a chan \<times> 'a list" where
  "chanrecv q =
     (case buf q of
        x # xs \<Rightarrow>
          (case sendq q of
             [] \<Rightarrow> (Value x, q\<lparr>buf := xs\<rparr>, [])
           | s # ss \<Rightarrow> (Value x, q\<lparr>buf := xs @ [s], sendq := ss\<rparr>, [s]))
      | [] \<Rightarrow>
          (case sendq q of
             s # ss \<Rightarrow> (Value s, q\<lparr>sendq := ss\<rparr>, [s])
           | [] \<Rightarrow> if isClosed q then (ClosedEmpty, q, []) else (NotReady, q, [])))"

datatype send = Sent | WouldBlock | SendOnClosed

text \<open>A send that does not block; a send on a closed channel panics.\<close>

definition chansend :: "'a \<Rightarrow> 'a chan \<Rightarrow> send \<times> 'a chan" where
  "chansend x q =
     (if isClosed q then (SendOnClosed, q)
      else if length (buf q) < cap q then (Sent, q\<lparr>buf := buf q @ [x]\<rparr>)
      else (WouldBlock, q))"

section \<open>The pool\<close>

record Config =
  InitialCap :: int32
  MaxCap :: int32
  MaxIdle :: int32
  Factory :: "factory_fn option"
  Close :: "close_fn option"
  IdleTimeout :: Duration
  WaitTimeout :: Duration
  WaitQueue :: int32

record connectionPool =
  idleQueue :: "idleConn chan"
  factory :: "factory_fn option"
  close :: "close_fn option"
  reqQueue :: "connReq chan"
  idleTimeOut :: Duration
  waitTimeOut :: Duration
  maxActiveConn :: int32
  openingConn :: int32

text \<open>
  A call of \<^verbatim>\<open>NewPool\<close>, \<^verbatim>\<open>Get\<close>, \<^verbatim>\<open>Put\<close> or \<^verbatim>\<open>Close\<close> is followed from its start to
  its return, to its panic, or to the statement at which its goroutine blocks; no other
  goroutine runs in between. \<^verbatim>\<open>time.Now()\<close> is an argument of the call, \<open>now\<close>, read
  with the same value wherever the call reads the clock.

  How a call ends: it returns, it panics, or the goroutine blocks. A goroutine blocks in
  a send on the idle queue (\<open>SendIdle\<close>), in the send of its request on the request queue
  (\<open>SendReq\<close>), in the inner \<^verbatim>\<open>select\<close> of \<^verbatim>\<open>Get\<close> (\<open>RecvHandoff\<close>), or in the send of
  \<^verbatim>\<open>Put\<close> on a handoff channel (\<open>SendHandoff\<close>); the number is the handoff channel.
\<close>

datatype blocked = SendIdle | SendReq nat | RecvHandoff nat | SendHandoff nat

datatype 'a outcome = Returns 'a | Panics | Blocks blocked

subsection \<open>Close\<close>

definition pool_Close ::
  "any \<Rightarrow> connectionPool \<Rightarrow> world \<Rightarrow> error option \<times> connectionPool \<times> world" where
  "pool_Close conn c w =
     (case close c of
        None \<Rightarrow> (None, c, w)
      | Some g \<Rightarrow>
          (let c1 = c\<lparr>openingConn := openingConn c - 1\<rparr>;
               (r, w1) = call_close g conn w
           in (r, c1, w1)))"

subsection \<open>NewPool\<close>

text \<open>
  The warm-up loop of \<^verbatim>\<open>NewPool\<close>, from the counter \<open>i\<close> on. \<^verbatim>\<open>time.Now()\<close> is the
  argument \<open>now\<close>.
\<close>

function warmup ::
  "int32 \<Rightarrow> int32 \<Rightarrow> Time \<Rightarrow> connectionPool \<Rightarrow> world
    \<Rightarrow> (connectionPool option \<times> error option) outcome \<times> world" where
  "warmup i n now c w =
     (if i <s n then
        (case factory c of
           None \<Rightarrow> (Panics, w)
         | Some f \<Rightarrow>
             (case call_factory f w of
                ((conn, err), w1) \<Rightarrow>
                  if err \<noteq> None then (Returns (None, Some InitPoolErr), w1)
                  else
                    (case chansend (IdleConn conn now) (idleQueue c) of
                       (Sent, q) \<Rightarrow> warmup (i + 1) n now (c\<lparr>idleQueue := q\<rparr>) w1
                     | (WouldBlock, q) \<Rightarrow> (Blocks SendIdle, w1)
                     | (SendOnClosed, q) \<Rightarrow> (Panics, w1))))
      else (Returns (Some c, None), w))"
  by pat_completeness auto

termination
proof (relation "measure (\<lambda>(i, n, now, c, w). nat (sint n - sint i))", goal_cases)
  case 1
  show ?case by simp
next
  case (2 i n now c w)
  from 2(1) have lt: "sint i < sint n"
    by (simp add: word_sless_alt)
  have "sint n < 2 ^ 31" and "- (2 ^ 31) \<le> sint i"
    using sint_lt [of n] sint_ge [of i] by simp_all
  with lt have "signed_take_bit 31 (sint i + 1) = sint i + 1"
    by (intro signed_take_bit_int_eq_self) auto
  then have "sint (i + 1) = sint i + 1"
    by (simp add: sint_word_add)
  with lt show ?case by simp
qed

text \<open>
  \<^verbatim>\<open>make(chan T, n)\<close> panics when \<open>n\<close> is negative. \<^verbatim>\<open>MaxIdle\<close> has passed the check of
  the capacities when the idle queue is made; \<^verbatim>\<open>WaitQueue\<close> is not checked.
\<close>

definition NewPool ::
  "Config \<Rightarrow> Time \<Rightarrow> world \<Rightarrow> (connectionPool option \<times> error option) outcome \<times> world" where
  "NewPool poolConfig now w =
     (if \<not> (InitialCap poolConfig \<le>s MaxIdle poolConfig
             \<and> MaxIdle poolConfig \<le>s MaxCap poolConfig
             \<and> 0 \<le>s InitialCap poolConfig)
      then (Returns (None, Some InvalidCapSet), w)
      else if Factory poolConfig = None then (Returns (None, Some InvalidFactorySet), w)
      else if Close poolConfig = None then (Returns (None, Some InvalidCloseSet), w)
      else if MaxIdle poolConfig <s 0 \<or> WaitQueue poolConfig <s 0 then (Panics, w)
      else
        warmup 0 (InitialCap poolConfig) now
          \<lparr>idleQueue = make_chan (nat (sint (MaxIdle poolConfig))),
           factory = Factory poolConfig,
           close = Close poolConfig,
           reqQueue = make_chan (nat (sint (WaitQueue poolConfig))),
           idleTimeOut = IdleTimeout poolConfig,
           waitTimeOut = WaitTimeout poolConfig,
           maxActiveConn = MaxCap poolConfig,
           openingConn = InitialCap poolConfig\<rparr>
          w)"

subsection \<open>Get\<close>

text \<open>
  The \<^verbatim>\<open>default\<close> branch of the \<^verbatim>\<open>select\<close> of \<^verbatim>\<open>Get\<close>. \<^verbatim>\<open>atomic.AddInt32\<close> returns the
  new value. \<^verbatim>\<open>time.NewTicker(d)\<close> panics when \<open>d\<close> is not positive. The request is
  stored in the queue by value, with \<open>abandon = False\<close>. The send of the request on the
  request queue is the only case of its \<^verbatim>\<open>select\<close>: when the queue is full the goroutine
  joins the blocked senders, and the ticker is not looked at. When the send goes through,
  the goroutine waits in the inner \<^verbatim>\<open>select\<close> for the handoff channel or the ticker.
\<close>

definition Get_default ::
  "connectionPool \<Rightarrow> world \<Rightarrow> (any \<times> error option) outcome \<times> connectionPool \<times> world" where
  "Get_default c w =
     (let n = openingConn c + 1;
          c1 = c\<lparr>openingConn := n\<rparr>
      in if n <s maxActiveConn c1 then
           (case factory c1 of
              None \<Rightarrow> (Panics, c1, w)
            | Some f \<Rightarrow> (case call_factory f w of (r, w1) \<Rightarrow> (Returns r, c1, w1)))
         else
           (let c2 = c1\<lparr>openingConn := openingConn c1 - 1\<rparr>;
                ch = nextChan w;
                req = \<lparr>abandon = False, idleConn = ch\<rparr>;
                w1 = w\<lparr>nextChan := Suc ch\<rparr>
            in if waitTimeOut c2 \<le> 0 then (Panics, c2, w1)
               else
                 (case chansend req (reqQueue c2) of
                    (Sent, q) \<Rightarrow>
                      (Blocks (RecvHandoff ch), c2\<lparr>reqQueue := q\<rparr>,
                       w1\<lparr>parked := insert ch (parked w1)\<rparr>)
                  | (WouldBlock, q) \<Rightarrow>
                      (Blocks (SendReq ch),
                       c2\<lparr>reqQueue := q\<lparr>sendq := sendq q @ [req]\<rparr>\<rparr>, w1)
                  | (SendOnClosed, q) \<Rightarrow> (Panics, c2, w1))))"

text \<open>
  The loop of \<^verbatim>\<open>Get\<close>. The value passed to \<^verbatim>\<open>c.Close\<close> and the value returned are
  \<^verbatim>\<open>idleC\<close>, the pointer received from the idle queue.
\<close>

function Get ::
  "Time \<Rightarrow> connectionPool \<Rightarrow> world
    \<Rightarrow> (any \<times> error option) outcome \<times> connectionPool \<times> world" where
  "Get now c w =
     (case chanrecv (idleQueue c) of
        (Value idleC, q, woken) \<Rightarrow>
          (let c1 = c\<lparr>idleQueue := q\<rparr>
           in if idleTimeOut c1 > 0 \<and> Sub now (lastActiveTime idleC) > idleTimeOut c1 then
                (case pool_Close (IdleConnPtr idleC) c1 w of
                   (err, c2, w2) \<Rightarrow> Get now c2 w2)
              else (Returns (IdleConnPtr idleC, None), c1, w))
      | (ClosedEmpty, q, woken) \<Rightarrow> (Returns (nil, Some PoolClosed), c, w)
      | (NotReady, q, woken) \<Rightarrow> Get_default c w)"
  by pat_completeness auto
termination
proof (relation "measure (\<lambda>(now, c, w). length (buf (idleQueue c)) + length (sendq (idleQueue c)))",
    goal_cases)
  case 1
  show ?case by simp
next
  case (2 now c w x y idleC q woken c1 err z c2 w2)
  from 2(1-3) have "length (buf q) + length (sendq q)
      < length (buf (idleQueue c)) + length (sendq (idleQueue c))"
    by (auto simp: chanrecv_def split: list.splits if_splits)
  moreover from 2(4,6,7) have "idleQueue c2 = q"
    by (auto simp: pool_Close_def call_close_def split: option.splits prod.splits)
  ultimately show ?case by simp
qed

text \<open>
  The two ways out of the inner \<^verbatim>\<open>select\<close> of a \<^verbatim>\<open>Get\<close> parked on the handoff channel
  \<open>ch\<close>. When the ticker fires, the goroutine sets \<^verbatim>\<open>abandon\<close> in its own variable
  \<^verbatim>\<open>req\<close>; the copy of the request in the request queue is another value and keeps
  \<open>abandon = False\<close>, so the pool is returned as it is.
\<close>

definition Get_ticker ::
  "nat \<Rightarrow> connectionPool \<Rightarrow> world \<Rightarrow> ((any \<times> error option) \<times> connectionPool \<times> world) option" where
  "Get_ticker ch c w =
     (if ch \<in> parked w then
        Some ((nil, Some GetConnectionTimeout), c,
              w\<lparr>parked := parked w - {ch},
                resumed := resumed w @ [(ch, nil, Some GetConnectionTimeout)]\<rparr>)
      else None)"

definition Get_handoff :: "nat \<Rightarrow> any \<Rightarrow> world \<Rightarrow> world" where
  "Get_handoff ch conn w =
     w\<lparr>parked := parked w - {ch}, resumed := resumed w @ [(ch, conn, None)]\<rparr>"

text \<open>
  A \<^verbatim>\<open>Get\<close> released from the send of its request reaches its inner \<^verbatim>\<open>select\<close>. With
  no \<^verbatim>\<open>Put\<close> sending on its handoff channel it waits there (\<open>Get_enter\<close>; a ticker
  that has fired already is then taken by \<open>Get_ticker\<close>). With a \<^verbatim>\<open>Put\<close> sending on
  the channel, it takes the ticker and returns the timeout error
  (\<open>Get_enter_ticker\<close>), or it receives the connection (\<open>Get_enter_handoff\<close>).
\<close>

definition Get_enter :: "nat \<Rightarrow> world \<Rightarrow> world option" where
  "Get_enter ch w =
     (if ch \<in> entering w
      then Some (w\<lparr>entering := entering w - {ch}, parked := insert ch (parked w)\<rparr>)
      else None)"

definition Get_enter_ticker :: "nat \<Rightarrow> world \<Rightarrow> world" where
  "Get_enter_ticker ch w =
     w\<lparr>entering := entering w - {ch},
       resumed := resumed w @ [(ch, nil, Some GetConnectionTimeout)]\<rparr>"

definition Get_enter_handoff :: "nat \<Rightarrow> any \<Rightarrow> world \<Rightarrow> world" where
  "Get_enter_handoff ch conn w =
     w\<lparr>entering := entering w - {ch}, resumed := resumed w @ [(ch, conn, None)]\<rparr>"

subsection \<open>Put\<close>

text \<open>
  The statement labelled \<^verbatim>\<open>Try\<close>. A sender released by the receive has put its request
  on the queue and is on its way to its inner \<^verbatim>\<open>select\<close>. The send on the handoff
  channel \<^verbatim>\<open>req.idleConn\<close> is a plain send on an unbuffered channel. It goes through
  when a goroutine is parked on that channel. When the goroutine of the request is still
  on its way to the \<^verbatim>\<open>select\<close>, \<^verbatim>\<open>Put\<close> waits in the send until that goroutine gets
  there: the goroutine then takes its ticker, and \<^verbatim>\<open>Put\<close> stays blocked, or it receives
  the connection, and \<^verbatim>\<open>Put\<close> returns. When no goroutine is parked on the channel or on
  its way, the send blocks for good.
\<close>

function Put_Try ::
  "any \<Rightarrow> Time \<Rightarrow> connectionPool \<Rightarrow> world \<Rightarrow> error option outcome \<times> connectionPool \<times> world" where
  "Put_Try conn now c w =
     (case chanrecv (reqQueue c) of
        (Value req, q, woken) \<Rightarrow>
          (let c1 = c\<lparr>reqQueue := q\<rparr>;
               w1 = w\<lparr>entering := entering w \<union> idleConn ` set woken\<rparr>
           in if abandon req then Put_Try conn now c1 w1
              else if idleConn req \<in> parked w1
                then (Returns None, c1, Get_handoff (idleConn req) conn w1)
              else if idleConn req \<in> entering w1
                then (if tickerFirst w1 (idleConn req)
                      then (Blocks (SendHandoff (idleConn req)), c1,
                            Get_enter_ticker (idleConn req) w1)
                      else (Returns None, c1, Get_enter_handoff (idleConn req) conn w1))
              else (Blocks (SendHandoff (idleConn req)), c1, w1))
      | (ClosedEmpty, q, woken) \<Rightarrow> (Returns (Some PoolClosed), c, w)
      | (NotReady, q, woken) \<Rightarrow>
          (case chansend (IdleConn conn now) (idleQueue c) of
             (Sent, q') \<Rightarrow> (Returns None, c\<lparr>idleQueue := q'\<rparr>, w)
           | (WouldBlock, q') \<Rightarrow>
               (let c1 = c\<lparr>openingConn := openingConn c - 1\<rparr>
                in case pool_Close conn c1 w of (err, c2, w2) \<Rightarrow> (Returns err, c2, w2))
           | (SendOnClosed, q') \<Rightarrow> (Panics, c, w)))"
  by pat_completeness auto
termination
proof (relation "measure (\<lambda>(conn, now, c, w). length (buf (reqQueue c)) + length (sendq (reqQueue c)))",
    goal_cases)
  case 1
  show ?case by simp
next
  case (2 conn now c w x y req q woken c1 w1)
  from 2(1-3) have "length (buf q) + length (sendq q)
      < length (buf (reqQueue c)) + length (sendq (reqQueue c))"
    by (auto simp: chanrecv_def split: list.splits if_splits)
  with 2 show ?case by simp
qed

definition Put ::
  "any \<Rightarrow> Time \<Rightarrow> connectionPool \<Rightarrow> world \<Rightarrow> error option outcome \<times> connectionPool \<times> world" where
  "Put conn now c w =
     (if conn = nil then (Returns (Some ConnectionIsNull), c, w) else Put_Try conn now c w)"

declare warmup.simps [simp del] Get.simps [simp del] Put_Try.simps [simp del]

section \<open>Example pools\<close>

text \<open>
  A world in which nothing has happened yet, a factory that numbers the connections it
  makes, a factory that always fails, a factory whose second call fails, and a close
  function that succeeds.
\<close>

definition w0 :: world where
  "w0 = \<lparr>factoryCalls = 0, closeCalls = [], nextChan = 0, parked = {}, resumed = [],
          entering = {}, tickerFirst = (\<lambda>ch. False)\<rparr>"

definition okFactory :: factory_fn where
  "okFactory w = (Res (factoryCalls w), None)"

definition failingFactory :: factory_fn where
  "failingFactory w = (nil, Some (External 1))"

definition secondFails :: factory_fn where
  "secondFails w =
     (if factoryCalls w = 1 then (nil, Some (External 1)) else (Res (factoryCalls w), None))"

definition okClose :: close_fn where
  "okClose w x = None"

text \<open>
  Scenario A of the specification: \<^verbatim>\<open>InitialCap=2, MaxCap=3, MaxIdle=2, WaitQueue=1,
  WaitTimeout=50ms\<close>.
\<close>

definition scenarioA :: Config where
  "scenarioA =
     \<lparr>InitialCap = 2, MaxCap = 3, MaxIdle = 2, Factory = Some okFactory,
      Close = Some okClose, IdleTimeout = 0, WaitTimeout = 50000000, WaitQueue = 1\<rparr>"

text \<open>
  The pool of scenario A with an empty idle queue, \<open>n\<close> open connections, the limit \<open>m\<close>
  and the factory \<open>f\<close>.
\<close>

definition emptyPool :: "int32 \<Rightarrow> int32 \<Rightarrow> factory_fn \<Rightarrow> connectionPool" where
  "emptyPool n m f =
     \<lparr>idleQueue = make_chan 2, factory = Some f, close = Some okClose,
      reqQueue = make_chan 1, idleTimeOut = 0, waitTimeOut = 50000000,
      maxActiveConn = m, openingConn = n\<rparr>"

text \<open>The pool that \<^verbatim>\<open>NewPool\<close> returns in scenario A at time 100.\<close>

definition poolA :: connectionPool where
  "poolA = (emptyPool 2 3 okFactory)
     \<lparr>idleQueue := (make_chan 2)\<lparr>buf := [IdleConn (Res 0) 100, IdleConn (Res 1) 100]\<rparr>\<rparr>"

definition waiting :: "nat \<Rightarrow> connReq" where
  "waiting ch = \<lparr>abandon = False, idleConn = ch\<rparr>"

section \<open>Evaluation of the examples\<close>

lemmas eval_defs =
  NewPool_def warmup.simps Get.simps Get_default_def Get_ticker_def Get_handoff_def
  Get_enter_def Get_enter_ticker_def Get_enter_handoff_def
  Put_def Put_Try.simps pool_Close_def call_factory_def call_close_def
  chanrecv_def chansend_def make_chan_def Sub_def maxDuration_def minDuration_def
  word_sle_eq word_sless_alt
  w0_def okFactory_def failingFactory_def secondFails_def okClose_def
  scenarioA_def emptyPool_def poolA_def waiting_def

lemma scenarioA_NewPool:
  "NewPool scenarioA 100 w0 = (Returns (Some poolA, None), w0\<lparr>factoryCalls := 2\<rparr>)"
  by (simp add: eval_defs)

lemma scenarioA_first_Get:
  "Get 101 poolA (w0\<lparr>factoryCalls := 2\<rparr>) =
     (Returns (IdleConnPtr (IdleConn (Res 0) 100), None),
      poolA\<lparr>idleQueue := (make_chan 2)\<lparr>buf := [IdleConn (Res 1) 100]\<rparr>\<rparr>,
      w0\<lparr>factoryCalls := 2\<rparr>)"
  by (simp add: eval_defs)

lemma scenarioA_second_Get:
  "Get 102 (poolA\<lparr>idleQueue := (make_chan 2)\<lparr>buf := [IdleConn (Res 1) 100]\<rparr>\<rparr>)
       (w0\<lparr>factoryCalls := 2\<rparr>) =
     (Returns (IdleConnPtr (IdleConn (Res 1) 100), None),
      emptyPool 2 3 okFactory, w0\<lparr>factoryCalls := 2\<rparr>)"
  by (simp add: eval_defs)

section \<open>Admission of a new connection\<close>

text \<open>
  What the \<^verbatim>\<open>default\<close> branch of \<^verbatim>\<open>Get\<close> does in general. The factory is called when
  the incremented counter is strictly below \<^verbatim>\<open>maxActiveConn\<close>, and its two results are
  returned as they are, with the counter left incremented; otherwise the factory is not
  called and the counter is set back.
\<close>

lemma Get_default_admitted:
  assumes "openingConn c + 1 <s maxActiveConn c" and "factory c = Some f"
  shows "Get_default c w =
    (Returns (f w), c\<lparr>openingConn := openingConn c + 1\<rparr>,
     w\<lparr>factoryCalls := Suc (factoryCalls w)\<rparr>)"
  using assms by (simp add: Get_default_def call_factory_def Let_def)

lemma Get_default_denied:
  assumes "\<not> openingConn c + 1 <s maxActiveConn c"
  shows "factoryCalls (snd (snd (Get_default c w))) = factoryCalls w
    \<and> openingConn (fst (snd (Get_default c w))) = openingConn c
    \<and> (\<forall>r. fst (Get_default c w) \<noteq> Returns r)"
  using assms
  by (auto simp: Get_default_def chansend_def Let_def split: send.splits)

text \<open>
  Claim C1: a \<^verbatim>\<open>Get\<close> that finds the idle queue empty creates a connection exactly when
  the incremented counter is at most \<^verbatim>\<open>MaxCap\<close>; with two open connections and
  \<^verbatim>\<open>MaxCap = 3\<close> it is admitted. The code compares with \<^verbatim>\<open><\<close>: in scenario A, after the
  two idle connections were handed out, the third \<^verbatim>\<open>Get\<close> increments the counter to 3,
  finds \<open>3 < 3\<close> false, sets the counter back to 2, calls no factory and waits on the
  handoff channel of its request.
\<close>

theorem Get_denied_below_MaxCap:
  "Get 103 (emptyPool 2 3 okFactory) (w0\<lparr>factoryCalls := 2\<rparr>) =
     (Blocks (RecvHandoff 0),
      (emptyPool 2 3 okFactory)\<lparr>reqQueue := (make_chan 1)\<lparr>buf := [waiting 0]\<rparr>\<rparr>,
      w0\<lparr>factoryCalls := 2, nextChan := 1, parked := {0}\<rparr>)"
  by (simp add: eval_defs)

text \<open>
  Claim C2: when the factory fails after the slot was reserved, the counter is set back
  before the error is returned. The code returns the results of the factory at once: the
  counter of an empty pool is 1 after the failed \<^verbatim>\<open>Get\<close>, although no connection exists.
\<close>

theorem Get_factory_error_keeps_slot:
  "Get 100 (emptyPool 0 3 failingFactory) w0 =
     (Returns (nil, Some (External 1)),
      (emptyPool 0 3 failingFactory)\<lparr>openingConn := 1\<rparr>,
      w0\<lparr>factoryCalls := 1\<rparr>)"
  by (simp add: eval_defs)

section \<open>Warm-up\<close>

text \<open>
  Claim C4: when a factory call of the warm-up fails, the connections already made are
  closed before \<^verbatim>\<open>NewPool\<close> returns the error. The code returns \<^verbatim>\<open>InitPoolErr\<close> from
  inside the loop: with a factory whose second call fails, the first connection was made
  and the close function is never called.
\<close>

theorem NewPool_warmup_failure_closes_nothing:
  "NewPool (scenarioA\<lparr>Factory := Some secondFails\<rparr>) 100 w0 =
     (Returns (None, Some InitPoolErr), w0\<lparr>factoryCalls := 2\<rparr>)
   \<and> closeCalls (snd (NewPool (scenarioA\<lparr>Factory := Some secondFails\<rparr>) 100 w0)) = []"
  by (simp add: eval_defs)

section \<open>Put on a full idle queue\<close>

lemma Put_idle_full:
  assumes "conn \<noteq> nil"
    and "buf (reqQueue c) = []" and "sendq (reqQueue c) = []" and "\<not> isClosed (reqQueue c)"
    and "\<not> isClosed (idleQueue c)" and "cap (idleQueue c) \<le> length (buf (idleQueue c))"
    and "close c = Some g"
  shows "Put conn now c w =
    (Returns (g w conn), c\<lparr>openingConn := openingConn c - 1 - 1\<rparr>,
     w\<lparr>closeCalls := closeCalls w @ [conn]\<rparr>)"
  using assms
  by (simp add: Put_def Put_Try.simps [of conn now c w] chanrecv_def chansend_def
      pool_Close_def call_close_def Let_def)

text \<open>
  Claim C5: a \<^verbatim>\<open>Put\<close> with no waiter and a full idle queue calls the close function on
  the connection and decrements the counter by exactly one. The code decrements the
  counter in \<^verbatim>\<open>Put\<close> and again in \<^verbatim>\<open>Close\<close>: with three open connections and the idle
  queue of scenario A full, the close function is called once and the counter is 1.
\<close>

theorem Put_idle_full_decrements_twice:
  "Put (Res 2) 200 (poolA\<lparr>openingConn := 3\<rparr>) (w0\<lparr>factoryCalls := 3\<rparr>) =
     (Returns None, poolA\<lparr>openingConn := 1\<rparr>,
      w0\<lparr>factoryCalls := 3, closeCalls := [Res 2]\<rparr>)"
  by (simp add: eval_defs)

section \<open>Get from the idle queue\<close>

text \<open>
  Claim C6: an expired entry has its connection closed, the counter decremented and the
  receive retried; an entry that is not expired has the connection stored in it returned,
  not the entry. The code passes the entry itself to \<^verbatim>\<open>Close\<close> and returns the entry
  itself: the first \<^verbatim>\<open>Get\<close> of scenario A returns the pointer to the \<^verbatim>\<open>idleConn\<close> and
  not connection 0, and with an idle timeout of 50 the close function receives the two
  pointers.
\<close>

theorem Get_returns_and_closes_the_wrapper:
  "fst (Get 101 poolA (w0\<lparr>factoryCalls := 2\<rparr>)) =
     Returns (IdleConnPtr (IdleConn (Res 0) 100), None)
   \<and> fst (Get 101 poolA (w0\<lparr>factoryCalls := 2\<rparr>)) \<noteq> Returns (Res 0, None)
   \<and> Get 200 (poolA\<lparr>idleTimeOut := 50\<rparr>) (w0\<lparr>factoryCalls := 2\<rparr>) =
       (Returns (Res 2, None),
        (emptyPool 1 3 okFactory)\<lparr>idleTimeOut := 50\<rparr>,
        w0\<lparr>factoryCalls := 3,
           closeCalls := [IdleConnPtr (IdleConn (Res 0) 100), IdleConnPtr (IdleConn (Res 1) 100)]\<rparr>)"
  by (simp add: eval_defs)

section \<open>Waiting\<close>

text \<open>
  Claim C8: with \<^verbatim>\<open>WaitTimeout = 0\<close> a \<^verbatim>\<open>Get\<close> that is denied admission enqueues its
  request and waits without a deadline; it neither crashes nor times out. The code passes
  \<^verbatim>\<open>waitTimeOut\<close> to \<^verbatim>\<open>time.NewTicker\<close>, which panics on a duration that is not
  positive, before the request is enqueued.
\<close>

theorem Get_panics_without_WaitTimeout:
  "Get 103 ((emptyPool 2 3 okFactory)\<lparr>waitTimeOut := 0\<rparr>) (w0\<lparr>factoryCalls := 2\<rparr>) =
     (Panics, (emptyPool 2 3 okFactory)\<lparr>waitTimeOut := 0\<rparr>,
      w0\<lparr>factoryCalls := 2, nextChan := 1\<rparr>)"
  by (simp add: eval_defs)

text \<open>
  Claim C3: \<^verbatim>\<open>Put\<close> of a connection never blocks; when the request it received has timed
  out, the connection goes on to the idle queue as if no request had been there. In the
  code the request in the queue is a copy whose \<^verbatim>\<open>abandon\<close> stays false, and the send on
  its handoff channel is a plain send on an unbuffered channel. After the third \<^verbatim>\<open>Get\<close> of
  scenario A has timed out, \<^verbatim>\<open>Put\<close> receives its request and blocks in the send on
  channel 0, on which no goroutine will ever receive; the idle queue, which has room, is
  not tried.
\<close>

theorem Put_blocks_on_timed_out_request:
  "Get_ticker 0 ((emptyPool 2 3 okFactory)\<lparr>reqQueue := (make_chan 1)\<lparr>buf := [waiting 0]\<rparr>\<rparr>)
       (w0\<lparr>factoryCalls := 2, nextChan := 1, parked := {0}\<rparr>) =
     Some ((nil, Some GetConnectionTimeout),
       (emptyPool 2 3 okFactory)\<lparr>reqQueue := (make_chan 1)\<lparr>buf := [waiting 0]\<rparr>\<rparr>,
       w0\<lparr>factoryCalls := 2, nextChan := 1, resumed := [(0, nil, Some GetConnectionTimeout)]\<rparr>)
   \<and> Put (Res 0) 200
       ((emptyPool 2 3 okFactory)\<lparr>reqQueue := (make_chan 1)\<lparr>buf := [waiting 0]\<rparr>\<rparr>)
       (w0\<lparr>factoryCalls := 2, nextChan := 1, resumed := [(0, nil, Some GetConnectionTimeout)]\<rparr>) =
     (Blocks (SendHandoff 0), emptyPool 2 3 okFactory,
      w0\<lparr>factoryCalls := 2, nextChan := 1, resumed := [(0, nil, Some GetConnectionTimeout)]\<rparr>)"
  by (simp add: eval_defs)

section \<open>Put and the waiting requests\<close>

text \<open>
  A request that is not marked abandoned at the head of the request queue, whose \<^verbatim>\<open>Get\<close>
  is parked on its handoff channel, is served: \<^verbatim>\<open>Put\<close> returns nil, that \<^verbatim>\<open>Get\<close> resumes
  with the connection, and the idle queue and the counter are left as they were.
\<close>

lemma Put_delivers_to_parked_head:
  assumes "conn \<noteq> nil"
    and "buf (reqQueue c) = req # rest"
    and "\<not> abandon req"
    and "idleConn req \<in> parked w"
  shows "\<exists>c' w'. Put conn now c w = (Returns None, c', w')
      \<and> resumed w' = resumed w @ [(idleConn req, conn, None)]
      \<and> idleConn req \<notin> parked w'
      \<and> buf (reqQueue c') @ sendq (reqQueue c') = rest @ sendq (reqQueue c)
      \<and> idleQueue c' = idleQueue c \<and> openingConn c' = openingConn c"
  using assms
  by (cases "sendq (reqQueue c)")
     (simp_all add: Put_def Put_Try.simps [of conn now c w] chanrecv_def Get_handoff_def)

text \<open>
  No call marks a request in the request queue as abandoned: \<^verbatim>\<open>Get\<close> enqueues its request
  with \<open>abandon = False\<close>, \<^verbatim>\<open>Put\<close> only removes requests, and the ticker branch of \<^verbatim>\<open>Get\<close>
  (\<open>Get_ticker\<close>) leaves the pool as it is. The queue of a new pool is empty. So the
  requests that \<^verbatim>\<open>Put\<close> receives are never marked, and none is ever skipped.
\<close>

lemma chanrecv_subset:
  "chanrecv q = (r, q', woken) \<Longrightarrow> set (buf q' @ sendq q') \<subseteq> set (buf q @ sendq q)"
  by (auto simp: chanrecv_def split: list.splits if_splits)

lemma pool_Close_reqQueue:
  "pool_Close x c w = (err, c', w') \<Longrightarrow> reqQueue c' = reqQueue c"
  by (auto simp: pool_Close_def Let_def split: option.splits prod.splits)

lemma Get_default_unflagged:
  assumes "\<forall>r \<in> set (buf (reqQueue c) @ sendq (reqQueue c)). \<not> abandon r"
    and "Get_default c w = (out, c', w')"
  shows "\<forall>r \<in> set (buf (reqQueue c') @ sendq (reqQueue c')). \<not> abandon r"
  using assms
  by (auto simp: Get_default_def Let_def call_factory_def chansend_def
      split: if_splits option.splits prod.splits)

lemma Get_unflagged:
  "\<forall>r \<in> set (buf (reqQueue c) @ sendq (reqQueue c)). \<not> abandon r
    \<Longrightarrow> Get now c w = (out, c', w')
    \<Longrightarrow> \<forall>r \<in> set (buf (reqQueue c') @ sendq (reqQueue c')). \<not> abandon r"
proof (induction now c w rule: Get.induct)
  case (1 now c w)
  obtain r q woken where rcv: "chanrecv (idleQueue c) = (r, q, woken)"
    by (cases "chanrecv (idleQueue c)") auto
  show ?case
  proof (cases r)
    case (Value idleC)
    let ?c1 = "c\<lparr>idleQueue := q\<rparr>"
    show ?thesis
    proof (cases "0 < idleTimeOut c \<and> idleTimeOut c < Sub now (lastActiveTime idleC)")
      case True
      obtain err c2 w2 where cl: "pool_Close (IdleConnPtr idleC) ?c1 w = (err, c2, w2)"
        by (cases "pool_Close (IdleConnPtr idleC) ?c1 w") auto
      from "1.prems" rcv Value True cl have run: "Get now c2 w2 = (out, c', w')"
        by (simp add: Get.simps [of now c w] Let_def)
      have "reqQueue c2 = reqQueue c"
        using pool_Close_reqQueue [OF cl] by simp
      with "1.prems"(1)
      have inv: "\<forall>r \<in> set (buf (reqQueue c2) @ sendq (reqQueue c2)). \<not> abandon r"
        by simp
      from True cl rcv Value inv run show ?thesis
        by (intro "1.IH" [of r "(q, woken)" idleC q woken ?c1 err "(c2, w2)" c2 w2]) simp_all
    next
      case False
      with "1.prems" rcv Value show ?thesis
        by (auto simp add: Get.simps [of now c w] Let_def)
    qed
  next
    case ClosedEmpty
    with "1.prems" rcv show ?thesis
      by (auto simp add: Get.simps [of now c w])
  next
    case NotReady
    with "1.prems" rcv have "Get_default c w = (out, c', w')"
      by (simp add: Get.simps [of now c w])
    with "1.prems"(1) show ?thesis
      by (rule Get_default_unflagged)
  qed
qed

lemma Put_Try_unflagged:
  "\<forall>r \<in> set (buf (reqQueue c) @ sendq (reqQueue c)). \<not> abandon r
    \<Longrightarrow> Put_Try conn now c w = (out, c', w')
    \<Longrightarrow> \<forall>r \<in> set (buf (reqQueue c') @ sendq (reqQueue c')). \<not> abandon r"
proof (induction conn now c w rule: Put_Try.induct)
  case (1 conn now c w)
  obtain r q woken where rcv: "chanrecv (reqQueue c) = (r, q, woken)"
    by (cases "chanrecv (reqQueue c)") auto
  show ?case
  proof (cases r)
    case (Value req)
    from rcv Value "1.prems"(1) have "req \<in> set (buf (reqQueue c) @ sendq (reqQueue c))"
      by (auto simp: chanrecv_def split: list.splits if_splits)
    with "1.prems"(1) have "\<not> abandon req"
      by blast
    moreover from chanrecv_subset [OF rcv] "1.prems"(1)
    have "\<forall>r \<in> set (buf q @ sendq q). \<not> abandon r"
      by blast
    ultimately show ?thesis
      using "1.prems"(2) rcv Value
      by (auto simp add: Put_Try.simps [of conn now c w] Let_def split: if_splits)
  next
    case ClosedEmpty
    with "1.prems" rcv show ?thesis
      by (auto simp add: Put_Try.simps [of conn now c w])
  next
    case NotReady
    with "1.prems" rcv show ?thesis
      by (auto simp add: Put_Try.simps [of conn now c w] Let_def chansend_def
          dest: pool_Close_reqQueue split: send.splits prod.splits if_splits)
  qed
qed

lemma Put_unflagged:
  assumes "\<forall>r \<in> set (buf (reqQueue c) @ sendq (reqQueue c)). \<not> abandon r"
    and "Put conn now c w = (out, c', w')"
  shows "\<forall>r \<in> set (buf (reqQueue c') @ sendq (reqQueue c')). \<not> abandon r"
proof (cases "conn = nil")
  case True
  with assms show ?thesis
    by (simp add: Put_def)
next
  case False
  with assms(2) have "Put_Try conn now c w = (out, c', w')"
    by (simp add: Put_def)
  with assms(1) show ?thesis
    by (rule Put_Try_unflagged)
qed

lemma warmup_reqQueue:
  "warmup i n now c w = (Returns (Some c', e), w') \<Longrightarrow> reqQueue c' = reqQueue c"
proof (induction i n now c w rule: warmup.induct)
  case (1 i n now c w)
  show ?case
  proof (cases "i <s n")
    case False
    with "1.prems" show ?thesis
      by (simp add: warmup.simps [of i n now c w])
  next
    case True
    from True "1.prems" obtain f where f: "factory c = Some f"
      by (cases "factory c") (simp_all add: warmup.simps [of i n now c w])
    obtain conn err w1 where cf: "call_factory f w = ((conn, err), w1)"
      by (cases "call_factory f w") auto
    from True "1.prems" f cf have err: "err = None"
      by (cases err) (simp_all add: warmup.simps [of i n now c w])
    obtain s q where cs: "chansend (IdleConn conn now) (idleQueue c) = (s, q)"
      by (cases "chansend (IdleConn conn now) (idleQueue c)") auto
    from True "1.prems" f cf err cs have s: "s = Sent"
      by (cases s) (simp_all add: warmup.simps [of i n now c w])
    from True "1.prems" f cf err cs s
    have run: "warmup (i + 1) n now (c\<lparr>idleQueue := q\<rparr>) w1 = (Returns (Some c', e), w')"
      by (simp add: warmup.simps [of i n now c w])
    have "reqQueue c' = reqQueue (c\<lparr>idleQueue := q\<rparr>)"
      using True f cf err cs s run
      by (intro "1.IH" [of f "(conn, err)" w1 conn err s q]) simp_all
    then show ?thesis by simp
  qed
qed

lemma NewPool_unflagged:
  assumes "NewPool poolConfig now w = (Returns (Some c, e), w')"
  shows "\<forall>r \<in> set (buf (reqQueue c) @ sendq (reqQueue c)). \<not> abandon r"
proof -
  from assms obtain c0 where "warmup 0 (InitialCap poolConfig) now c0 w = (Returns (Some c, e), w')"
    and "reqQueue c0 = make_chan (nat (sint (WaitQueue poolConfig)))"
    by (auto simp: NewPool_def split: if_splits)
  then have "reqQueue c = make_chan (nat (sint (WaitQueue poolConfig)))"
    using warmup_reqQueue by metis
  then show ?thesis
    by (simp add: make_chan_def)
qed

lemma unflagged_prefix_empty:
  assumes "\<forall>r \<in> set (buf (reqQueue c) @ sendq (reqQueue c)). \<not> abandon r"
    and "buf (reqQueue c) = pre @ req # rest"
    and "\<forall>r \<in> set pre. abandon r"
  shows "pre = []"
  using assms by (cases pre) auto

text \<open>
  A \<^verbatim>\<open>Get\<close> blocked in the send of its request on a request queue of capacity 0 is
  released by the receive of \<^verbatim>\<open>Put\<close>. Whether it then receives the connection or takes
  its ticker, which leaves \<^verbatim>\<open>Put\<close> blocked, is open in the code; both runs are runs of
  the model.
\<close>

lemma Put_on_released_Get:
  "Put (Res 0) 200
       ((emptyPool 2 3 okFactory)\<lparr>reqQueue := (make_chan 0)\<lparr>sendq := [waiting 0]\<rparr>\<rparr>)
       (w0\<lparr>factoryCalls := 2, nextChan := 1\<rparr>) =
     (Returns None, (emptyPool 2 3 okFactory)\<lparr>reqQueue := make_chan 0\<rparr>,
      w0\<lparr>factoryCalls := 2, nextChan := 1, resumed := [(0, Res 0, None)]\<rparr>)
   \<and> Put (Res 0) 200
       ((emptyPool 2 3 okFactory)\<lparr>reqQueue := (make_chan 0)\<lparr>sendq := [waiting 0]\<rparr>\<rparr>)
       (w0\<lparr>factoryCalls := 2, nextChan := 1, tickerFirst := (\<lambda>ch. True)\<rparr>) =
     (Blocks (SendHandoff 0), (emptyPool 2 3 okFactory)\<lparr>reqQueue := make_chan 0\<rparr>,
      w0\<lparr>factoryCalls := 2, nextChan := 1,
         resumed := [(0, nil, Some GetConnectionTimeout)], tickerFirst := (\<lambda>ch. True)\<rparr>)"
  by (simp add: eval_defs)

text \<open>
  Scenario A with a request queue of capacity 2: the pool that \<^verbatim>\<open>NewPool\<close> returns, the
  third \<^verbatim>\<open>Get\<close> (after the two that empty the idle queue), and its ticker.
\<close>

lemma wide_queue_third_Get_times_out:
  "NewPool (scenarioA\<lparr>WaitQueue := 2\<rparr>) 100 w0 =
     (Returns (Some (poolA\<lparr>reqQueue := make_chan 2\<rparr>), None), w0\<lparr>factoryCalls := 2\<rparr>)
   \<and> Get 103 ((emptyPool 2 3 okFactory)\<lparr>reqQueue := make_chan 2\<rparr>) (w0\<lparr>factoryCalls := 2\<rparr>) =
     (Blocks (RecvHandoff 0),
      (emptyPool 2 3 okFactory)\<lparr>reqQueue := (make_chan 2)\<lparr>buf := [waiting 0]\<rparr>\<rparr>,
      w0\<lparr>factoryCalls := 2, nextChan := 1, parked := {0}\<rparr>)
   \<and> Get_ticker 0 ((emptyPool 2 3 okFactory)\<lparr>reqQueue := (make_chan 2)\<lparr>buf := [waiting 0]\<rparr>\<rparr>)
       (w0\<lparr>factoryCalls := 2, nextChan := 1, parked := {0}\<rparr>) =
     Some ((nil, Some GetConnectionTimeout),
       (emptyPool 2 3 okFactory)\<lparr>reqQueue := (make_chan 2)\<lparr>buf := [waiting 0]\<rparr>\<rparr>,
       w0\<lparr>factoryCalls := 2, nextChan := 1, resumed := [(0, nil, Some GetConnectionTimeout)]\<rparr>)"
  by (simp add: eval_defs)

text \<open>
  Claim C7: when \<^verbatim>\<open>Put\<close> finds a live request in the request queue, the connection is
  delivered to that waiter, whose \<^verbatim>\<open>Get\<close> returns it, and the abandoned requests met
  during the scan are dropped. In the code the request of a \<^verbatim>\<open>Get\<close> that timed out is a
  copy whose \<^verbatim>\<open>abandon\<close> is false, so it is not dropped. Scenario A with a request queue
  of capacity 2: the third \<^verbatim>\<open>Get\<close> has timed out, and a fourth \<^verbatim>\<open>Get\<close> enqueues its request
  behind that of the third and waits on channel 1. \<^verbatim>\<open>Put\<close> receives the request of the
  third \<^verbatim>\<open>Get\<close> and blocks in the send on channel 0; the fourth \<^verbatim>\<open>Get\<close> stays parked, its
  request stays in the queue, and nothing is delivered to it.
\<close>

theorem Put_leaves_live_waiter_unserved:
  "Get 104 ((emptyPool 2 3 okFactory)\<lparr>reqQueue := (make_chan 2)\<lparr>buf := [waiting 0]\<rparr>\<rparr>)
       (w0\<lparr>factoryCalls := 2, nextChan := 1, resumed := [(0, nil, Some GetConnectionTimeout)]\<rparr>) =
     (Blocks (RecvHandoff 1),
      (emptyPool 2 3 okFactory)\<lparr>reqQueue := (make_chan 2)\<lparr>buf := [waiting 0, waiting 1]\<rparr>\<rparr>,
      w0\<lparr>factoryCalls := 2, nextChan := 2, parked := {1},
         resumed := [(0, nil, Some GetConnectionTimeout)]\<rparr>)
   \<and> Put (Res 0) 200
       ((emptyPool 2 3 okFactory)\<lparr>reqQueue := (make_chan 2)\<lparr>buf := [waiting 0, waiting 1]\<rparr>\<rparr>)
       (w0\<lparr>factoryCalls := 2, nextChan := 2, parked := {1},
           resumed := [(0, nil, Some GetConnectionTimeout)]\<rparr>) =
     (Blocks (SendHandoff 0),
      (emptyPool 2 3 okFactory)\<lparr>reqQueue := (make_chan 2)\<lparr>buf := [waiting 1]\<rparr>\<rparr>,
      w0\<lparr>factoryCalls := 2, nextChan := 2, parked := {1},
         resumed := [(0, nil, Some GetConnectionTimeout)]\<rparr>)"
  by (simp add: eval_defs)

section \<open>Get followed by Put\<close>

text \<open>
  Claim C9, as amended: a \<^verbatim>\<open>Get\<close> that is served by the first entry of the idle queue
  (the entry is not expired), followed by \<^verbatim>\<open>Put\<close> of the value it returned while no
  request is waiting, leaves the counter and the number of idle entries as they were. The
  idle queue itself changes: the entry served is gone from the front, and a new entry
  with the time of the \<^verbatim>\<open>Put\<close> stands at the back.
\<close>

theorem Get_Put_idle_hit_round_trip:
  assumes "buf (idleQueue c) = e # rest"
    and "sendq (idleQueue c) = []"
    and "\<not> isClosed (idleQueue c)"
    and "length (buf (idleQueue c)) \<le> cap (idleQueue c)"
    and "\<not> (0 < idleTimeOut c \<and> idleTimeOut c < Sub now (lastActiveTime e))"
    and "buf (reqQueue c) = []"
    and "sendq (reqQueue c) = []"
    and "\<not> isClosed (reqQueue c)"
  shows "\<exists>v c1 c2. Get now c w = (Returns (v, None), c1, w)
      \<and> Put v now' c1 w = (Returns None, c2, w)
      \<and> openingConn c2 = openingConn c
      \<and> length (buf (idleQueue c2)) = length (buf (idleQueue c))
      \<and> buf (idleQueue c2) = rest @ [IdleConn v now']
      \<and> reqQueue c2 = reqQueue c"
proof -
  let ?c1 = "c\<lparr>idleQueue := (idleQueue c)\<lparr>buf := rest\<rparr>\<rparr>"
  let ?v = "IdleConnPtr e"
  from assms have g: "Get now c w = (Returns (?v, None), ?c1, w)"
    by (auto simp add: Get.simps [of now c w] chanrecv_def Let_def)
  from assms have "chanrecv (reqQueue ?c1) = (NotReady, reqQueue ?c1, [])"
    by (simp add: chanrecv_def)
  moreover from assms have "chansend (IdleConn ?v now') (idleQueue ?c1)
      = (Sent, (idleQueue c)\<lparr>buf := rest @ [IdleConn ?v now']\<rparr>)"
    by (simp add: chansend_def)
  ultimately have p: "Put ?v now' ?c1 w
      = (Returns None, ?c1\<lparr>idleQueue := (idleQueue c)\<lparr>buf := rest @ [IdleConn ?v now']\<rparr>\<rparr>, w)"
    by (simp add: Put_def Put_Try.simps [of ?v now' ?c1 w])
  from g p assms(1) show ?thesis by simp
qed

text \<open>The theorem at the pool of scenario A, right after \<^verbatim>\<open>NewPool\<close>.\<close>

theorem Get_Put_idle_hit_round_trip_witness:
  "buf (idleQueue poolA) = IdleConn (Res 0) 100 # [IdleConn (Res 1) 100]
   \<and> sendq (idleQueue poolA) = []
   \<and> \<not> isClosed (idleQueue poolA)
   \<and> length (buf (idleQueue poolA)) \<le> cap (idleQueue poolA)
   \<and> \<not> (0 < idleTimeOut poolA
        \<and> idleTimeOut poolA < Sub 101 (lastActiveTime (IdleConn (Res 0) 100)))
   \<and> buf (reqQueue poolA) = [] \<and> sendq (reqQueue poolA) = [] \<and> \<not> isClosed (reqQueue poolA)
   \<and> (\<exists>v c1 c2. Get 101 poolA (w0\<lparr>factoryCalls := 2\<rparr>) = (Returns (v, None), c1, w0\<lparr>factoryCalls := 2\<rparr>)
        \<and> Put v 102 c1 (w0\<lparr>factoryCalls := 2\<rparr>) = (Returns None, c2, w0\<lparr>factoryCalls := 2\<rparr>)
        \<and> openingConn c2 = openingConn poolA
        \<and> length (buf (idleQueue c2)) = length (buf (idleQueue poolA))
        \<and> buf (idleQueue c2) = [IdleConn (Res 1) 100, IdleConn v 102]
        \<and> reqQueue c2 = reqQueue poolA)"
  using Get_Put_idle_hit_round_trip [of poolA "IdleConn (Res 0) 100" "[IdleConn (Res 1) 100]"
      101 "w0\<lparr>factoryCalls := 2\<rparr>" 102]
  by (auto simp add: poolA_def emptyPool_def make_chan_def Sub_def maxDuration_def minDuration_def)

text \<open>
  Claim C9 as stated fails when the \<^verbatim>\<open>Get\<close> creates the connection: on an empty pool
  \<^verbatim>\<open>Get\<close> makes connection 0 and raises the counter from 0 to 1, and the \<^verbatim>\<open>Put\<close> of
  connection 0 stores it in the idle queue, which was empty before.
\<close>

theorem Get_Put_created_connection_counterexample:
  "Get 100 (emptyPool 0 3 okFactory) w0 =
     (Returns (Res 0, None), emptyPool 1 3 okFactory, w0\<lparr>factoryCalls := 1\<rparr>)
   \<and> Put (Res 0) 100 (emptyPool 1 3 okFactory) (w0\<lparr>factoryCalls := 1\<rparr>) =
     (Returns None,
      (emptyPool 1 3 okFactory)\<lparr>idleQueue := (make_chan 2)\<lparr>buf := [IdleConn (Res 0) 100]\<rparr>\<rparr>,
      w0\<lparr>factoryCalls := 1\<rparr>)
   \<and> buf (idleQueue ((emptyPool 1 3 okFactory)
          \<lparr>idleQueue := (make_chan 2)\<lparr>buf := [IdleConn (Res 0) 100]\<rparr>\<rparr>))
       \<noteq> buf (idleQueue (emptyPool 0 3 okFactory))
   \<and> openingConn ((emptyPool 1 3 okFactory)
          \<lparr>idleQueue := (make_chan 2)\<lparr>buf := [IdleConn (Res 0) 100]\<rparr>\<rparr>)
       \<noteq> openingConn (emptyPool 0 3 okFactory)"
  by (simp add: eval_defs)

section \<open>The errors of Get\<close>

lemma pool_Close_factory:
  "pool_Close x c w = (err, c', w') \<Longrightarrow> factory c' = factory c"
  by (auto simp: pool_Close_def Let_def split: option.splits prod.splits)

lemma Get_default_error:
  "Get_default c w = (Returns (v, Some e), c', w')
    \<Longrightarrow> \<exists>f wf. factory c = Some f \<and> f wf = (v, Some e)"
  by (auto simp: Get_default_def Let_def call_factory_def
      split: if_splits option.splits prod.splits send.splits)

text \<open>
  An error returned by the loop of \<^verbatim>\<open>Get\<close> is \<^verbatim>\<open>PoolClosed\<close> or comes from the factory,
  by induction on the computation of \<^verbatim>\<open>Get\<close>: closing an expired entry leaves the
  factory of the pool as it is.
\<close>

lemma Get_error_origin:
  "Get now c w = (Returns (v, Some e), c', w')
    \<Longrightarrow> e = PoolClosed \<or> (\<exists>f wf. factory c = Some f \<and> f wf = (v, Some e))"
proof (induction now c w rule: Get.induct)
  case (1 now c w)
  obtain r q woken where rcv: "chanrecv (idleQueue c) = (r, q, woken)"
    by (cases "chanrecv (idleQueue c)") auto
  show ?case
  proof (cases r)
    case (Value idleC)
    let ?c1 = "c\<lparr>idleQueue := q\<rparr>"
    show ?thesis
    proof (cases "0 < idleTimeOut c \<and> idleTimeOut c < Sub now (lastActiveTime idleC)")
      case True
      obtain err c2 w2 where cl: "pool_Close (IdleConnPtr idleC) ?c1 w = (err, c2, w2)"
        by (cases "pool_Close (IdleConnPtr idleC) ?c1 w") auto
      from "1.prems" rcv Value True cl have "Get now c2 w2 = (Returns (v, Some e), c', w')"
        by (simp add: Get.simps [of now c w] Let_def)
      moreover have "e = PoolClosed \<or> (\<exists>f wf. factory c2 = Some f \<and> f wf = (v, Some e))"
        if "Get now c2 w2 = (Returns (v, Some e), c', w')"
        using that True cl rcv Value
        by (intro "1.IH" [of r "(q, woken)" idleC q woken ?c1 err "(c2, w2)" c2 w2]) simp_all
      moreover have "factory c2 = factory c"
        by (simp add: pool_Close_factory [OF cl])
      ultimately show ?thesis by simp
    next
      case False
      with "1.prems" rcv Value show ?thesis
        by (auto simp add: Get.simps [of now c w] Let_def)
    qed
  next
    case ClosedEmpty
    with "1.prems" rcv show ?thesis
      by (simp add: Get.simps [of now c w])
  next
    case NotReady
    with "1.prems" rcv have "Get_default c w = (Returns (v, Some e), c', w')"
      by (simp add: Get.simps [of now c w])
    then show ?thesis
      by (auto dest: Get_default_error)
  qed
qed

lemma Get_ticker_result:
  "Get_ticker ch p u = Some (r, p', u') \<Longrightarrow> r = (nil, Some GetConnectionTimeout) \<and> p' = p"
  by (auto simp: Get_ticker_def split: if_splits)

lemma Get_request_queue_full:
  assumes "buf (idleQueue d) = []" and "sendq (idleQueue d) = []"
    and "\<not> isClosed (idleQueue d)"
    and "\<not> openingConn d + 1 <s maxActiveConn d"
    and "0 < waitTimeOut d"
    and "\<not> isClosed (reqQueue d)"
    and "cap (reqQueue d) \<le> length (buf (reqQueue d))"
    and "nextChan x \<notin> parked x"
  shows "\<exists>d' x'. Get t d x = (Blocks (SendReq (nextChan x)), d', x')
      \<and> buf (reqQueue d') = buf (reqQueue d)
      \<and> sendq (reqQueue d') = sendq (reqQueue d) @ [waiting (nextChan x)]
      \<and> Get_ticker (nextChan x) d' x' = None"
  using assms
  by (simp add: Get.simps [of t d x] chanrecv_def Get_default_def chansend_def Let_def
      Get_ticker_def waiting_def)

lemma error_values:
  "(y :: error) \<in> {PoolClosed, GetConnectionTimeout, ConnectionIsNull, InvalidCapSet,
      InvalidFactorySet, InvalidCloseSet, InitPoolErr} \<union> range External"
  by (cases y) auto

text \<open>
  Claim C10, as amended: \<^verbatim>\<open>Get\<close> fails with the timeout error, with the pool-closed
  error, or with the error that the factory returned, which is passed on as it is. The
  error values of the package are the seven of \<^verbatim>\<open>error.go\<close>, none of which stands for a
  saturated pool. When the request queue is full (and \<^verbatim>\<open>WaitTimeout\<close> is positive), a
  \<^verbatim>\<open>Get\<close> that is denied admission blocks in the send of its request: it joins the
  blocked senders of the queue, and its ticker cannot end that wait.
\<close>

theorem Get_failure_modes:
  "(Get now c w = (Returns (v, Some e), c', w')
      \<longrightarrow> e = PoolClosed \<or> (\<exists>f wf. factory c = Some f \<and> f wf = (v, Some e)))
   \<and> (Get_ticker ch p u = Some (r, p', u') \<longrightarrow> r = (nil, Some GetConnectionTimeout) \<and> p' = p)
   \<and> (y :: error) \<in> {PoolClosed, GetConnectionTimeout, ConnectionIsNull, InvalidCapSet,
        InvalidFactorySet, InvalidCloseSet, InitPoolErr} \<union> range External
   \<and> (buf (idleQueue d) = [] \<and> sendq (idleQueue d) = [] \<and> \<not> isClosed (idleQueue d)
        \<and> \<not> openingConn d + 1 <s maxActiveConn d
        \<and> 0 < waitTimeOut d
        \<and> \<not> isClosed (reqQueue d) \<and> cap (reqQueue d) \<le> length (buf (reqQueue d))
        \<and> nextChan x \<notin> parked x
      \<longrightarrow> (\<exists>d' x'. Get t d x = (Blocks (SendReq (nextChan x)), d', x')
            \<and> buf (reqQueue d') = buf (reqQueue d)
            \<and> sendq (reqQueue d') = sendq (reqQueue d) @ [waiting (nextChan x)]
            \<and> Get_ticker (nextChan x) d' x' = None))"
  using Get_error_origin [of now c w v e c' w'] Get_ticker_result [of ch p u r p' u']
    error_values [of y] Get_request_queue_full [of d x t]
  by blast

text \<open>
  The theorem at three inputs: an empty pool whose factory fails, the third \<^verbatim>\<open>Get\<close> of
  scenario A when its ticker fires, and a fourth \<^verbatim>\<open>Get\<close> of scenario A while the request
  of the third one fills the request queue.
\<close>

theorem Get_failure_modes_witness:
  "Get 100 (emptyPool 1 3 failingFactory) w0 =
     (Returns (nil, Some (External 1)), emptyPool 2 3 failingFactory, w0\<lparr>factoryCalls := 1\<rparr>)
   \<and> (External 1 = PoolClosed
        \<or> (\<exists>f wf. factory (emptyPool 1 3 failingFactory) = Some f
              \<and> f wf = (nil, Some (External 1))))
   \<and> Get_ticker 0 ((emptyPool 2 3 okFactory)\<lparr>reqQueue := (make_chan 1)\<lparr>buf := [waiting 0]\<rparr>\<rparr>)
        (w0\<lparr>factoryCalls := 2, nextChan := 1, parked := {0}\<rparr>) =
      Some ((nil, Some GetConnectionTimeout),
        (emptyPool 2 3 okFactory)\<lparr>reqQueue := (make_chan 1)\<lparr>buf := [waiting 0]\<rparr>\<rparr>,
        w0\<lparr>factoryCalls := 2, nextChan := 1, resumed := [(0, nil, Some GetConnectionTimeout)]\<rparr>)
   \<and> buf (idleQueue ((emptyPool 2 3 okFactory)\<lparr>reqQueue := (make_chan 1)\<lparr>buf := [waiting 0]\<rparr>\<rparr>)) = []
   \<and> \<not> (2 :: int32) + 1 <s 3
   \<and> (0 :: Duration) < 50000000
   \<and> cap (make_chan 1 :: connReq chan) \<le> length [waiting 0]
   \<and> (1 :: nat) \<notin> {0}
   \<and> (\<exists>d' x'. Get 104 ((emptyPool 2 3 okFactory)\<lparr>reqQueue := (make_chan 1)\<lparr>buf := [waiting 0]\<rparr>\<rparr>)
          (w0\<lparr>factoryCalls := 2, nextChan := 1, parked := {0}\<rparr>) = (Blocks (SendReq 1), d', x')
        \<and> buf (reqQueue d') = [waiting 0]
        \<and> sendq (reqQueue d') = [waiting 1]
        \<and> Get_ticker 1 d' x' = None)"
  using Get_failure_modes [of 100 "emptyPool 1 3 failingFactory" w0 nil "External 1"
      "emptyPool 2 3 failingFactory" "w0\<lparr>factoryCalls := 1\<rparr>"
      0 "(emptyPool 2 3 okFactory)\<lparr>reqQueue := (make_chan 1)\<lparr>buf := [waiting 0]\<rparr>\<rparr>"
      "w0\<lparr>factoryCalls := 2, nextChan := 1, parked := {0}\<rparr>"
      "(nil, Some GetConnectionTimeout)"
      "(emptyPool 2 3 okFactory)\<lparr>reqQueue := (make_chan 1)\<lparr>buf := [waiting 0]\<rparr>\<rparr>"
      "w0\<lparr>factoryCalls := 2, nextChan := 1, resumed := [(0, nil, Some GetConnectionTimeout)]\<rparr>"
      PoolClosed
      "(emptyPool 2 3 okFactory)\<lparr>reqQueue := (make_chan 1)\<lparr>buf := [waiting 0]\<rparr>\<rparr>"
      "w0\<lparr>factoryCalls := 2, nextChan := 1, parked := {0}\<rparr>" 104]
  by (auto simp add: eval_defs)

text \<open>
  Claim C10 as stated fails when the factory fails: \<^verbatim>\<open>Get\<close> returns the error of the
  factory, which is neither the timeout error nor the pool-closed error.
\<close>

theorem Get_factory_error_counterexample:
  "fst (Get 100 (emptyPool 1 3 failingFactory) w0) = Returns (nil, Some (External 1))
   \<and> External 1 \<noteq> GetConnectionTimeout \<and> External 1 \<noteq> PoolClosed"
  by (simp add: eval_defs)

end
